theory Spec2Isabelle
  imports Main
begin

section \<open>OCPP 1.6 messages used by the charge point and the central system\<close>

text \<open>
  The enums and payload classes below come from the imported \<^verbatim>\<open>ocpp.v16\<close> package
  (\<^verbatim>\<open>enums\<close>, \<^verbatim>\<open>call\<close>, \<^verbatim>\<open>call_result\<close>, \<^verbatim>\<open>datatypes\<close>); only the fields that
  \<^verbatim>\<open>client/client.py\<close> and \<^verbatim>\<open>server/server.py\<close> read or write are kept.
\<close>

type_synonym timestamp = string

datatype registration_status = RegAccepted | RegPending | RegRejected

datatype authorization_status =
  AuthAccepted | AuthBlocked | AuthExpired | AuthInvalid | AuthConcurrentTx

text \<open>
  Modelled from the spec: the members of \<^verbatim>\<open>ChargePointStatus\<close>, declared in the imported
  package and listed in the data model as ConnectorStatus.
\<close>

datatype charge_point_status =
  Available | Preparing | Charging | SuspendedEV | SuspendedEVSE
  | Finishing | Reserved | Unavailable | Faulted

datatype charge_point_error_code = NoError

text \<open>The \<^verbatim>\<open>status\<close> argument of \<^verbatim>\<open>call.StatusNotification\<close>: an enum member or a plain string.\<close>

datatype status_field = EnumMember charge_point_status | RawString string

datatype id_tag_info = IdTagInfo (info_status: authorization_status)

datatype sampled_value = SampledValue (sv_value: string)

datatype meter_value = MeterValue (mv_timestamp: timestamp) (mv_sampled_value: "sampled_value list")

text \<open>Requests of the \<^verbatim>\<open>call\<close> module, fields in keyword order of the source.\<close>

datatype request =
  BootNotification string string
  | Heartbeat
  | StatusNotification int charge_point_error_code status_field timestamp
  | Authorize string
  | StartTransaction int string int timestamp
  | MeterValues int "int option" "meter_value list"
  | StopTransaction int int timestamp

text \<open>
  Values returned by \<^verbatim>\<open>self.call\<close>: an object of the \<^verbatim>\<open>call_result\<close> module, or
  \<^verbatim>\<open>None\<close>.
\<close>

datatype response =
  BootNotificationResult timestamp int registration_status
  | HeartbeatResult timestamp
  | StatusNotificationResult
  | AuthorizeResult id_tag_info
  | StartTransactionResult int id_tag_info
  | MeterValuesResult
  | StopTransactionResult id_tag_info
  | NoneResult

datatype exn =
  TimeoutError | CallErrorRaised string | FormatViolationError | ConnectionClosed | AttributeError

text \<open>
  \<^verbatim>\<open>await self.call(req)\<close> either returns a value or raises; the source has no
  \<^verbatim>\<open>try\<close>, so a raised exception leaves the enclosing coroutine at that point.
\<close>

datatype outcome = Returned response | Raised exn

section \<open>Observable effects\<close>

datatype level = INFO | WARNING

datatype log_msg =
  SendingBootNotification
  | BootNotificationResponse response
  | SendingHeartbeat
  | HeartbeatResponse response
  | SendingStatusNotification string int
  | StatusNotificationResponse response
  | SendingStartTransaction int string
  | StartTransactionResponse response
  | StoredTransactionId "int option"
  | SkippingMeterValues
  | SendingMeterValues string
  | MeterValuesResponse response
  | SkippingStopTransaction
  | SendingStopTransaction int int
  | StopTransactionResponse response

datatype print_msg = ConnectedToCentralSystem | BootNotificationNotAccepted registration_status

datatype task = HeartbeatLoop

text \<open>
  Everything an operation does besides changing the session is appended to a trace:
  \<open>Log\<close> is a \<^verbatim>\<open>logging\<close> record (level, \<^verbatim>\<open>self.id\<close>, message), \<open>Called\<close> a
  request handed to \<^verbatim>\<open>self.call\<close>, \<open>Spawned\<close> an \<^verbatim>\<open>asyncio.create_task\<close>, \<open>Slept\<close>
  an \<^verbatim>\<open>asyncio.sleep\<close> with its delay.
\<close>

datatype event =
  Log level string log_msg
  | Printed print_msg
  | Called request
  | Spawned task
  | Slept int

fun calls_of :: "event list \<Rightarrow> request list" where
  "calls_of [] = []"
| "calls_of (Called r # es) = r # calls_of es"
| "calls_of (_ # es) = calls_of es"

fun tasks_of :: "event list \<Rightarrow> task list" where
  "tasks_of [] = []"
| "tasks_of (Spawned t # es) = t # tasks_of es"
| "tasks_of (_ # es) = tasks_of es"

fun sleeps_of :: "event list \<Rightarrow> int list" where
  "sleeps_of [] = []"
| "sleeps_of (Slept d # es) = d # sleeps_of es"
| "sleeps_of (_ # es) = sleeps_of es"

text \<open>
  The surroundings of a session: \<open>call_outcome env k req\<close> is what \<^verbatim>\<open>self.call\<close>
  does with the request \<open>req\<close> when \<open>k\<close> requests have been handed to it before;
  \<open>now env n\<close> is the text of \<^verbatim>\<open>datetime.now(timezone.utc).isoformat()\<close> read after
  \<open>n\<close> events.
\<close>

record env =
  call_outcome :: "nat \<Rightarrow> request \<Rightarrow> outcome"
  now :: "nat \<Rightarrow> timestamp"

section \<open>The charge point session (client/client.py)\<close>

record cp_state =
  cp_id :: string
  heartbeat_interval :: int
  current_transaction_id :: "int option"

definition init :: "string \<Rightarrow> cp_state" where
  "init i = \<lparr>cp_id = i, heartbeat_interval = 10, current_transaction_id = None\<rparr>"

text \<open>
  An operation takes the session and the trace so far, and gives back what it returned or
  raised, the session and the extended trace. \<^verbatim>\<open>send_authorize\<close> reads and writes
  nothing of the session and is left out.
\<close>

type_synonym 'a result = "(exn + 'a) \<times> cp_state \<times> event list"

definition returned :: "'a result \<Rightarrow> exn + 'a" where
  "returned r = fst r"

definition state_of :: "'a result \<Rightarrow> cp_state" where
  "state_of r = fst (snd r)"

definition trace_of :: "'a result \<Rightarrow> event list" where
  "trace_of r = snd (snd r)"

subsection \<open>Boot and heartbeat\<close>

definition send_boot_notification :: "env \<Rightarrow> cp_state \<Rightarrow> event list \<Rightarrow> unit result" where
  "send_boot_notification env s tr =
     (let req = BootNotification ''MyTestModel'' ''MyStartup'';
          tr1 = tr @ [Log INFO (cp_id s) SendingBootNotification]
      in case call_outcome env (length (calls_of tr1)) req of
           Raised e \<Rightarrow> (Inl e, s, tr1 @ [Called req])
         | Returned response \<Rightarrow>
             (let tr2 = tr1 @ [Called req, Log INFO (cp_id s) (BootNotificationResponse response)]
              in case response of
                   BootNotificationResult current_time interval status \<Rightarrow>
                     (if status = RegAccepted
                      then (Inr (), s\<lparr>heartbeat_interval := interval\<rparr>,
                            tr2 @ [Printed ConnectedToCentralSystem, Spawned HeartbeatLoop])
                      else (Inr (), s, tr2 @ [Printed (BootNotificationNotAccepted status)]))
                 | _ \<Rightarrow> (Inl AttributeError, s, tr2)))"

text \<open>
  \<^verbatim>\<open>heartbeat_loop\<close> is \<^verbatim>\<open>while True\<close>: it never returns, and ends only when
  \<^verbatim>\<open>self.call\<close> raises. The first argument bounds the number of iterations that are
  observed: the result is \<open>None\<close> when the loop is still running after that many
  iterations, and \<open>Some e\<close> when the task has ended with the exception \<open>e\<close>. The task is
  followed on its own, with no other operation of the session in between.
\<close>

fun heartbeat_loop :: "nat \<Rightarrow> env \<Rightarrow> cp_state \<Rightarrow> event list \<Rightarrow> exn option \<times> event list" where
  "heartbeat_loop 0 env s tr = (None, tr)"
| "heartbeat_loop (Suc n) env s tr =
     (let tr1 = tr @ [Slept (heartbeat_interval s), Log INFO (cp_id s) SendingHeartbeat]
      in case call_outcome env (length (calls_of tr1)) Heartbeat of
           Raised e \<Rightarrow> (Some e, tr1 @ [Called Heartbeat])
         | Returned resp \<Rightarrow>
             heartbeat_loop n env s
               (tr1 @ [Called Heartbeat, Log INFO (cp_id s) (HeartbeatResponse resp)]))"

subsection \<open>StatusNotification\<close>

text \<open>
  \<open>members\<close> is \<^verbatim>\<open>ChargePointStatus.__members__\<close>, the table from member names to
  members of the imported enum.
\<close>

definition send_status_notification ::
  "(string \<rightharpoonup> charge_point_status) \<Rightarrow> env \<Rightarrow> int \<Rightarrow> string \<Rightarrow> cp_state \<Rightarrow> event list \<Rightarrow> unit result" where
  "send_status_notification members env connector_id status s tr =
     (let status_enum = (case members status of Some m \<Rightarrow> EnumMember m | None \<Rightarrow> RawString status);
          req = StatusNotification connector_id NoError status_enum (now env (length tr));
          tr1 = tr @ [Log INFO (cp_id s) (SendingStatusNotification status connector_id)]
      in case call_outcome env (length (calls_of tr1)) req of
           Raised e \<Rightarrow> (Inl e, s, tr1 @ [Called req])
         | Returned resp \<Rightarrow>
             (Inr (), s, tr1 @ [Called req, Log INFO (cp_id s) (StatusNotificationResponse resp)]))"

subsection \<open>StartTransaction\<close>

text \<open>\<^verbatim>\<open>resp.transaction_id\<close>: only a StartTransaction result has the attribute.\<close>

fun transaction_id :: "response \<Rightarrow> exn + int" where
  "transaction_id (StartTransactionResult tid info) = Inr tid"
| "transaction_id _ = Inl AttributeError"

definition send_start_transaction ::
  "env \<Rightarrow> int \<Rightarrow> string \<Rightarrow> cp_state \<Rightarrow> event list \<Rightarrow> response result" where
  "send_start_transaction env connector_id id_tag s tr =
     (let req = StartTransaction connector_id id_tag 0 (now env (length tr));
          tr1 = tr @ [Log INFO (cp_id s) (SendingStartTransaction connector_id id_tag)]
      in case call_outcome env (length (calls_of tr1)) req of
           Raised e \<Rightarrow> (Inl e, s, tr1 @ [Called req])
         | Returned resp \<Rightarrow>
             (let tr2 = tr1 @ [Called req, Log INFO (cp_id s) (StartTransactionResponse resp)]
              in case transaction_id resp of
                   Inl e \<Rightarrow> (Inl e, s, tr2)
                 | Inr tid \<Rightarrow>
                     (let s' = s\<lparr>current_transaction_id := Some tid\<rparr>
                      in (Inr resp, s',
                          tr2 @ [Log INFO (cp_id s') (StoredTransactionId (current_transaction_id s'))]))))"

subsection \<open>MeterValues\<close>

text \<open>
  The body of \<^verbatim>\<open>for v in values\<close>; \<open>str\<close> is Python's \<^verbatim>\<open>str\<close> on a sample. The
  transaction id is read from the session in every iteration.
\<close>

fun meter_values_loop ::
  "('v \<Rightarrow> string) \<Rightarrow> env \<Rightarrow> int \<Rightarrow> 'v list \<Rightarrow> cp_state \<Rightarrow> event list \<Rightarrow> unit result" where
  "meter_values_loop str env connector_id [] s tr = (Inr (), s, tr)"
| "meter_values_loop str env connector_id (v # vs) s tr =
     (let mv = MeterValue (now env (length tr)) [SampledValue (str v)];
          req = MeterValues connector_id (current_transaction_id s) [mv];
          tr1 = tr @ [Log INFO (cp_id s) (SendingMeterValues (str v))]
      in case call_outcome env (length (calls_of tr1)) req of
           Raised e \<Rightarrow> (Inl e, s, tr1 @ [Called req])
         | Returned resp \<Rightarrow>
             meter_values_loop str env connector_id vs s
               (tr1 @ [Called req, Log INFO (cp_id s) (MeterValuesResponse resp)]))"

definition send_meter_values ::
  "('v \<Rightarrow> string) \<Rightarrow> env \<Rightarrow> int \<Rightarrow> 'v list \<Rightarrow> cp_state \<Rightarrow> event list \<Rightarrow> unit result" where
  "send_meter_values str env connector_id values s tr =
     (if current_transaction_id s = None
      then (Inr (), s, tr @ [Log WARNING (cp_id s) SkippingMeterValues])
      else meter_values_loop str env connector_id values s tr)"

subsection \<open>StopTransaction\<close>

text \<open>
  The meter value is always passed; the default \<^verbatim>\<open>meter_stop = 100\<close> of the source is
  what a caller passes when it has no value of its own.
\<close>

definition send_stop_transaction :: "env \<Rightarrow> int \<Rightarrow> cp_state \<Rightarrow> event list \<Rightarrow> unit result" where
  "send_stop_transaction env meter_stop s tr =
     (case current_transaction_id s of
        None \<Rightarrow> (Inr (), s, tr @ [Log WARNING (cp_id s) SkippingStopTransaction])
      | Some tid \<Rightarrow>
          (let req = StopTransaction tid meter_stop (now env (length tr));
               tr1 = tr @ [Log INFO (cp_id s) (SendingStopTransaction tid meter_stop)]
           in case call_outcome env (length (calls_of tr1)) req of
                Raised e \<Rightarrow> (Inl e, s, tr1 @ [Called req])
              | Returned resp \<Rightarrow>
                  (Inr (), s\<lparr>current_transaction_id := None\<rparr>,
                   tr1 @ [Called req, Log INFO (cp_id s) (StopTransactionResponse resp)])))"

section \<open>The central system (server/server.py)\<close>

datatype server_log =
  StartTransactionFrom string int string int timestamp "(string \<times> string) list"

text \<open>
  The handler of \<^verbatim>\<open>Action.start_transaction\<close>: the first argument is \<^verbatim>\<open>self.id\<close>, the
  last one \<^verbatim>\<open>**kwargs\<close>. It gives the log record and the returned call result.
\<close>

definition on_start_transaction ::
  "string \<Rightarrow> int \<Rightarrow> string \<Rightarrow> int \<Rightarrow> timestamp \<Rightarrow> (string \<times> string) list \<Rightarrow> server_log list \<times> response" where
  "on_start_transaction self_id connector_id id_tag meter_start ts kwargs =
     (let transaction_id = 1;
          id_tag_info = IdTagInfo AuthAccepted
      in ([StartTransactionFrom self_id connector_id id_tag meter_start ts kwargs],
          StartTransactionResult transaction_id id_tag_info))"

section \<open>Example sessions\<close>

text \<open>
  Concrete surroundings for the examples below: a peer that answers every request with the
  same result, and one whose \<open>j\<close>-th request gets no answer within the response
  timeout, so that \<^verbatim>\<open>self.call\<close> raises. In the examples a sample is given by the text
  that Python's \<^verbatim>\<open>str\<close> yields for it.
\<close>

definition answering :: "response \<Rightarrow> env" where
  "answering r =
     \<lparr>call_outcome = (\<lambda>k req. Returned r), now = (\<lambda>n. ''2025-01-01T00:00:00+00:00'')\<rparr>"

definition timing_out_at :: "nat \<Rightarrow> response \<Rightarrow> env" where
  "timing_out_at j r =
     \<lparr>call_outcome = (\<lambda>k req. if k = j then Raised TimeoutError else Returned r),
      now = (\<lambda>n. ''2025-01-01T00:00:00+00:00'')\<rparr>"

definition str_sample :: "string \<Rightarrow> string" where
  "str_sample v = v"

definition active :: "int \<Rightarrow> cp_state" where
  "active tid = (init ''CP_1'')\<lparr>current_transaction_id := Some tid\<rparr>"

text \<open>A table of member names with two entries, for the examples of StatusNotification.\<close>

definition two_members :: "string \<rightharpoonup> charge_point_status" where
  "two_members = [''available'' \<mapsto> Available, ''charging'' \<mapsto> Charging]"

text \<open>
  A peer behind a call layer that checks a StatusNotification before it is sent, as the
  imported package does: a status that is a plain string has to be one of the values of
  the enum (the ConnectorStatus values of the data model), and the call raises
  \<^verbatim>\<open>FormatViolationError\<close> when it is not.
\<close>

definition status_values :: "string list" where
  "status_values =
     [''Available'', ''Preparing'', ''Charging'', ''SuspendedEV'', ''SuspendedEVSE'',
      ''Finishing'', ''Reserved'', ''Unavailable'', ''Faulted'']"

fun valid_status :: "status_field \<Rightarrow> bool" where
  "valid_status (EnumMember m) = True"
| "valid_status (RawString v) = (v \<in> set status_values)"

fun checked_request :: "request \<Rightarrow> outcome" where
  "checked_request (StatusNotification connector_id error_code status ts) =
     (if valid_status status then Returned StatusNotificationResult
      else Raised FormatViolationError)"
| "checked_request _ = Returned NoneResult"

definition checking_status :: env where
  "checking_status =
     \<lparr>call_outcome = (\<lambda>k req. checked_request req),
      now = (\<lambda>n. ''2025-01-01T00:00:00+00:00'')\<rparr>"

section \<open>Traces\<close>

lemma calls_of_append: "calls_of (xs @ ys) = calls_of xs @ calls_of ys"
  by (induction xs rule: calls_of.induct) simp_all

lemma tasks_of_append: "tasks_of (xs @ ys) = tasks_of xs @ tasks_of ys"
  by (induction xs rule: tasks_of.induct) simp_all

lemma sleeps_of_append: "sleeps_of (xs @ ys) = sleeps_of xs @ sleeps_of ys"
  by (induction xs rule: sleeps_of.induct) simp_all

section \<open>The loops\<close>

lemma meter_values_loop_all_return:
  "\<forall>i<length vs. \<exists>r. call_outcome env (length (calls_of tr) + i)
        (MeterValues c (current_transaction_id s)
           [MeterValue (now env (length tr + 3 * i)) [SampledValue (str (vs ! i))]])
      = Returned r \<Longrightarrow>
   \<exists>es. meter_values_loop str env c vs s tr = (Inr (), s, tr @ es)
        \<and> length es = 3 * length vs
        \<and> calls_of es =
            map (\<lambda>i. MeterValues c (current_transaction_id s)
                        [MeterValue (now env (length tr + 3 * i)) [SampledValue (str (vs ! i))]])
              [0..<length vs]"
proof (induction vs arbitrary: tr)
  case Nil
  then show ?case by simp
next
  case (Cons v vs)
  let ?req = "MeterValues c (current_transaction_id s)
                [MeterValue (now env (length tr)) [SampledValue (str v)]]"
  from Cons.prems [rule_format, of 0]
  obtain r where r: "call_outcome env (length (calls_of tr)) ?req = Returned r"
    by auto
  let ?step = "[Log INFO (cp_id s) (SendingMeterValues (str v)), Called ?req,
                Log INFO (cp_id s) (MeterValuesResponse r)]"
  let ?tr' = "tr @ ?step"
  have len: "length (calls_of ?tr') = Suc (length (calls_of tr))"
    by (simp add: calls_of_append)
  have shift: "\<And>i. length ?tr' + 3 * i = length tr + 3 * Suc i"
    by simp
  have "\<forall>i<length vs. \<exists>r. call_outcome env (length (calls_of ?tr') + i)
        (MeterValues c (current_transaction_id s)
           [MeterValue (now env (length ?tr' + 3 * i)) [SampledValue (str (vs ! i))]])
      = Returned r"
  proof (intro allI impI)
    fix i assume "i < length vs"
    then have "Suc i < length (v # vs)" by simp
    with Cons.prems have "\<exists>r. call_outcome env (length (calls_of tr) + Suc i)
        (MeterValues c (current_transaction_id s)
           [MeterValue (now env (length tr + 3 * Suc i)) [SampledValue (str ((v # vs) ! Suc i))]])
      = Returned r"
      by blast
    then show "\<exists>r. call_outcome env (length (calls_of ?tr') + i)
        (MeterValues c (current_transaction_id s)
           [MeterValue (now env (length ?tr' + 3 * i)) [SampledValue (str (vs ! i))]])
      = Returned r"
      unfolding len shift by simp
  qed
  from Cons.IH [OF this] obtain es where
    es: "meter_values_loop str env c vs s ?tr' = (Inr (), s, ?tr' @ es)"
        "length es = 3 * length vs"
        "calls_of es =
            map (\<lambda>i. MeterValues c (current_transaction_id s)
                        [MeterValue (now env (length ?tr' + 3 * i)) [SampledValue (str (vs ! i))]])
              [0..<length vs]"
    by blast
  have run: "meter_values_loop str env c (v # vs) s tr = (Inr (), s, tr @ (?step @ es))"
    using r es(1) by (simp add: calls_of_append)
  have calls: "calls_of (?step @ es) =
      map (\<lambda>i. MeterValues c (current_transaction_id s)
                  [MeterValue (now env (length tr + 3 * i)) [SampledValue (str ((v # vs) ! i))]])
        [0..<length (v # vs)]"
    unfolding calls_of_append es(3) shift
    by (simp add: map_upt_Suc del: upt_Suc)
  have "length (?step @ es) = 3 * length (v # vs)"
    using es(2) by simp
  with run calls show ?case by blast
qed

lemma meter_values_loop_raise:
  "k < length vs \<Longrightarrow>
   \<forall>i<k. \<exists>r. call_outcome env (length (calls_of tr) + i)
        (MeterValues c (current_transaction_id s)
           [MeterValue (now env (length tr + 3 * i)) [SampledValue (str (vs ! i))]])
      = Returned r \<Longrightarrow>
   call_outcome env (length (calls_of tr) + k)
        (MeterValues c (current_transaction_id s)
           [MeterValue (now env (length tr + 3 * k)) [SampledValue (str (vs ! k))]])
      = Raised e \<Longrightarrow>
   \<exists>es. meter_values_loop str env c vs s tr = (Inl e, s, tr @ es)
        \<and> calls_of es =
            map (\<lambda>i. MeterValues c (current_transaction_id s)
                        [MeterValue (now env (length tr + 3 * i)) [SampledValue (str (vs ! i))]])
              [0..<Suc k]"
proof (induction vs arbitrary: tr k)
  case Nil
  then show ?case by simp
next
  case (Cons v vs)
  let ?req = "MeterValues c (current_transaction_id s)
                [MeterValue (now env (length tr)) [SampledValue (str v)]]"
  show ?case
  proof (cases k)
    case 0
    with Cons.prems(3) have "call_outcome env (length (calls_of tr)) ?req = Raised e"
      by simp
    then have "meter_values_loop str env c (v # vs) s tr =
        (Inl e, s, tr @ [Log INFO (cp_id s) (SendingMeterValues (str v)), Called ?req])"
      by (simp add: calls_of_append)
    with 0 show ?thesis by simp
  next
    case (Suc j)
    from Cons.prems(2) [rule_format, of 0] Suc
    obtain r where r: "call_outcome env (length (calls_of tr)) ?req = Returned r"
      by auto
    let ?step = "[Log INFO (cp_id s) (SendingMeterValues (str v)), Called ?req,
                  Log INFO (cp_id s) (MeterValuesResponse r)]"
    let ?tr' = "tr @ ?step"
    have len: "length (calls_of ?tr') = Suc (length (calls_of tr))"
      by (simp add: calls_of_append)
    have shift: "\<And>i. length ?tr' + 3 * i = length tr + 3 * Suc i"
      by simp
    have j: "j < length vs"
      using Cons.prems(1) Suc by simp
    have before: "\<forall>i<j. \<exists>r. call_outcome env (length (calls_of ?tr') + i)
        (MeterValues c (current_transaction_id s)
           [MeterValue (now env (length ?tr' + 3 * i)) [SampledValue (str (vs ! i))]])
      = Returned r"
    proof (intro allI impI)
      fix i assume "i < j"
      then have "Suc i < k" using Suc by simp
      with Cons.prems(2) have "\<exists>r. call_outcome env (length (calls_of tr) + Suc i)
          (MeterValues c (current_transaction_id s)
             [MeterValue (now env (length tr + 3 * Suc i)) [SampledValue (str ((v # vs) ! Suc i))]])
        = Returned r"
        by blast
      then show "\<exists>r. call_outcome env (length (calls_of ?tr') + i)
          (MeterValues c (current_transaction_id s)
             [MeterValue (now env (length ?tr' + 3 * i)) [SampledValue (str (vs ! i))]])
        = Returned r"
        unfolding len shift by simp
    qed
    from Cons.prems(3) have "call_outcome env (length (calls_of tr) + Suc j)
          (MeterValues c (current_transaction_id s)
             [MeterValue (now env (length tr + 3 * Suc j)) [SampledValue (str ((v # vs) ! Suc j))]])
        = Raised e"
      unfolding Suc .
    then have at: "call_outcome env (length (calls_of ?tr') + j)
          (MeterValues c (current_transaction_id s)
             [MeterValue (now env (length ?tr' + 3 * j)) [SampledValue (str (vs ! j))]])
        = Raised e"
      unfolding len shift by simp
    from Cons.IH [OF j before at] obtain es where
      es: "meter_values_loop str env c vs s ?tr' = (Inl e, s, ?tr' @ es)"
          "calls_of es =
              map (\<lambda>i. MeterValues c (current_transaction_id s)
                          [MeterValue (now env (length ?tr' + 3 * i)) [SampledValue (str (vs ! i))]])
                [0..<Suc j]"
      by blast
    have run: "meter_values_loop str env c (v # vs) s tr = (Inl e, s, tr @ (?step @ es))"
      using r es(1) by (simp add: calls_of_append)
    have "calls_of (?step @ es) =
        map (\<lambda>i. MeterValues c (current_transaction_id s)
                    [MeterValue (now env (length tr + 3 * i)) [SampledValue (str ((v # vs) ! i))]])
          [0..<Suc k]"
      unfolding calls_of_append es(2) shift Suc
      by (simp add: map_upt_Suc del: upt_Suc)
    with run show ?thesis by blast
  qed
qed

lemma meter_values_loop_frame:
  "\<exists>r es. meter_values_loop str env c vs s tr = (r, s, tr @ es)
         \<and> (\<forall>req \<in> set (calls_of es). \<exists>mvs. req = MeterValues c (current_transaction_id s) mvs)"
proof (induction vs arbitrary: tr)
  case Nil
  then show ?case by simp
next
  case (Cons v vs)
  let ?req = "MeterValues c (current_transaction_id s)
                [MeterValue (now env (length tr)) [SampledValue (str v)]]"
  show ?case
  proof (cases "call_outcome env (length (calls_of tr)) ?req")
    case (Raised e)
    then have "meter_values_loop str env c (v # vs) s tr =
        (Inl e, s, tr @ [Log INFO (cp_id s) (SendingMeterValues (str v)), Called ?req])"
      by (simp add: calls_of_append)
    then show ?thesis by simp
  next
    case (Returned resp)
    let ?step = "[Log INFO (cp_id s) (SendingMeterValues (str v)), Called ?req,
                  Log INFO (cp_id s) (MeterValuesResponse resp)]"
    from Cons.IH [of "tr @ ?step"] obtain r es where
      es: "meter_values_loop str env c vs s (tr @ ?step) = (r, s, (tr @ ?step) @ es)"
          "\<forall>req \<in> set (calls_of es). \<exists>mvs. req = MeterValues c (current_transaction_id s) mvs"
      by blast
    have "meter_values_loop str env c (v # vs) s tr = (r, s, tr @ (?step @ es))"
      using Returned es(1) by (simp add: calls_of_append)
    moreover have "\<forall>req \<in> set (calls_of (?step @ es)).
        \<exists>mvs. req = MeterValues c (current_transaction_id s) mvs"
      using es(2) by (simp add: calls_of_append)
    ultimately show ?thesis by blast
  qed
qed

lemma heartbeat_loop_all_return:
  "\<forall>i<n. \<exists>r. call_outcome env (length (calls_of tr) + i) Heartbeat = Returned r \<Longrightarrow>
   \<exists>es. heartbeat_loop n env s tr = (None, tr @ es) \<and> calls_of es = replicate n Heartbeat"
proof (induction n arbitrary: tr)
  case 0
  then show ?case by simp
next
  case (Suc n)
  from Suc.prems obtain r where r: "call_outcome env (length (calls_of tr)) Heartbeat = Returned r"
    by fastforce
  let ?step = "[Slept (heartbeat_interval s), Log INFO (cp_id s) SendingHeartbeat,
                Called Heartbeat, Log INFO (cp_id s) (HeartbeatResponse r)]"
  let ?tr' = "tr @ ?step"
  have len: "length (calls_of ?tr') = Suc (length (calls_of tr))"
    by (simp add: calls_of_append)
  have "\<forall>i<n. \<exists>r. call_outcome env (length (calls_of ?tr') + i) Heartbeat = Returned r"
  proof (intro allI impI)
    fix i assume "i < n"
    then have "Suc i < Suc n" by simp
    with Suc.prems
    have "\<exists>r. call_outcome env (length (calls_of tr) + Suc i) Heartbeat = Returned r"
      by blast
    then show "\<exists>r. call_outcome env (length (calls_of ?tr') + i) Heartbeat = Returned r"
      by (simp add: len)
  qed
  from Suc.IH [OF this] obtain es where
    es: "heartbeat_loop n env s ?tr' = (None, ?tr' @ es)" "calls_of es = replicate n Heartbeat"
    by blast
  have "heartbeat_loop (Suc n) env s tr = (None, tr @ (?step @ es))"
    using r es(1) by (simp add: calls_of_append)
  moreover have "calls_of (?step @ es) = replicate (Suc n) Heartbeat"
    using es(2) by (simp add: calls_of_append)
  ultimately show ?case by blast
qed

lemma heartbeat_loop_raise:
  "k < n \<Longrightarrow>
   \<forall>i<k. \<exists>r. call_outcome env (length (calls_of tr) + i) Heartbeat = Returned r \<Longrightarrow>
   call_outcome env (length (calls_of tr) + k) Heartbeat = Raised e \<Longrightarrow>
   \<exists>es es'. heartbeat_loop n env s tr = (Some e, tr @ es)
        \<and> calls_of es = replicate (Suc k) Heartbeat
        \<and> es = es' @ [Slept (heartbeat_interval s), Log INFO (cp_id s) SendingHeartbeat,
                       Called Heartbeat]
        \<and> length es = 4 * k + 3"
proof (induction n arbitrary: tr k)
  case 0
  then show ?case by simp
next
  case (Suc n)
  let ?last = "[Slept (heartbeat_interval s), Log INFO (cp_id s) SendingHeartbeat,
                Called Heartbeat]"
  show ?case
  proof (cases k)
    case 0
    with Suc.prems(3) have "call_outcome env (length (calls_of tr)) Heartbeat = Raised e"
      by simp
    then have "heartbeat_loop (Suc n) env s tr = (Some e, tr @ ?last)"
      by (simp add: calls_of_append)
    moreover have "calls_of ?last = replicate (Suc k) Heartbeat"
      using 0 by simp
    moreover have "?last = [] @ ?last"
      by simp
    moreover have "length ?last = 4 * k + 3"
      using 0 by simp
    ultimately show ?thesis by blast
  next
    case (Suc j)
    from Suc.prems(2) Suc obtain r where
      r: "call_outcome env (length (calls_of tr)) Heartbeat = Returned r"
      by fastforce
    let ?step = "[Slept (heartbeat_interval s), Log INFO (cp_id s) SendingHeartbeat,
                  Called Heartbeat, Log INFO (cp_id s) (HeartbeatResponse r)]"
    let ?tr' = "tr @ ?step"
    have len: "length (calls_of ?tr') = Suc (length (calls_of tr))"
      by (simp add: calls_of_append)
    have j: "j < n"
      using Suc.prems(1) Suc by simp
    have before: "\<forall>i<j. \<exists>r. call_outcome env (length (calls_of ?tr') + i) Heartbeat = Returned r"
    proof (intro allI impI)
      fix i assume "i < j"
      then have "Suc i < k" using Suc by simp
      with Suc.prems(2)
      have "\<exists>r. call_outcome env (length (calls_of tr) + Suc i) Heartbeat = Returned r"
        by blast
      then show "\<exists>r. call_outcome env (length (calls_of ?tr') + i) Heartbeat = Returned r"
        by (simp add: len)
    qed
    have at: "call_outcome env (length (calls_of ?tr') + j) Heartbeat = Raised e"
      using Suc.prems(3) Suc by (simp add: len)
    from Suc.IH [OF j before at] obtain es es' where
      es: "heartbeat_loop n env s ?tr' = (Some e, ?tr' @ es)"
          "calls_of es = replicate (Suc j) Heartbeat"
          "es = es' @ ?last"
          "length es = 4 * j + 3"
      by blast
    have "heartbeat_loop (Suc n) env s tr = (Some e, tr @ (?step @ es))"
      using r es(1) by (simp add: calls_of_append)
    moreover have "calls_of (?step @ es) = replicate (Suc k) Heartbeat"
      using es(2) Suc by (simp add: calls_of_append)
    moreover have "?step @ es = (?step @ es') @ ?last"
      using es(3) by simp
    moreover have "length (?step @ es) = 4 * k + 3"
      using es(4) Suc by simp
    ultimately show ?thesis by blast
  qed
qed

lemma heartbeat_loop_sleeps:
  "\<exists>es. snd (heartbeat_loop n env s tr) = tr @ es
        \<and> sleeps_of es = replicate (length (calls_of es)) (heartbeat_interval s)"
proof (induction n arbitrary: tr)
  case 0
  then show ?case by simp
next
  case (Suc n)
  show ?case
  proof (cases "call_outcome env (length (calls_of tr)) Heartbeat")
    case (Raised e)
    then have "heartbeat_loop (Suc n) env s tr =
        (Some e, tr @ [Slept (heartbeat_interval s), Log INFO (cp_id s) SendingHeartbeat,
                       Called Heartbeat])"
      by (simp add: calls_of_append)
    then show ?thesis by simp
  next
    case (Returned r)
    let ?step = "[Slept (heartbeat_interval s), Log INFO (cp_id s) SendingHeartbeat,
                  Called Heartbeat, Log INFO (cp_id s) (HeartbeatResponse r)]"
    from Suc.IH [of "tr @ ?step"] obtain es where
      es: "snd (heartbeat_loop n env s (tr @ ?step)) = (tr @ ?step) @ es"
          "sleeps_of es = replicate (length (calls_of es)) (heartbeat_interval s)"
      by blast
    have "snd (heartbeat_loop (Suc n) env s tr) = tr @ (?step @ es)"
      using Returned es(1) by (simp add: calls_of_append)
    moreover have "sleeps_of (?step @ es) =
        replicate (length (calls_of (?step @ es))) (heartbeat_interval s)"
      using es(2) by (simp add: calls_of_append sleeps_of_append)
    ultimately show ?thesis by blast
  qed
qed

section \<open>Properties\<close>

subsection \<open>Transaction ids issued by the central system\<close>

text \<open>
  C1. The spec asks that two StartTransaction requests answered by the central system get
  distinct transaction ids from a counter. The handler keeps no counter: it answers a
  request of charge point \<^verbatim>\<open>CP_1\<close> and a request of charge point \<^verbatim>\<open>CP_2\<close> with
  the same transaction id, 1.
\<close>

theorem on_start_transaction_constant_id:
  "transaction_id (snd (on_start_transaction ''CP_1'' 1 ''TAG1'' 0 ''2025-01-01T00:00:00+00:00'' [])) = Inr 1
   \<and> transaction_id (snd (on_start_transaction ''CP_2'' 1 ''TAG2'' 0 ''2025-01-01T00:00:05+00:00'' [])) = Inr 1"
  by (simp add: on_start_transaction_def)

subsection \<open>The number of MeterValues calls\<close>

text \<open>
  C2, as the code has it. With no current transaction, \<^verbatim>\<open>send_meter_values\<close> hands no
  request to \<^verbatim>\<open>self.call\<close> and logs the warning that it skips. With an empty list of
  samples it hands over no request. With a current transaction, and when each of the
  \<open>length vs\<close> calls returns, it returns normally after handing over exactly one
  MeterValues request for each sample, in the order of the samples, each with the stored
  transaction id.
\<close>

theorem send_meter_values_calls:
  "(current_transaction_id s = None \<longrightarrow>
      send_meter_values str env c vs s tr
        = (Inr (), s, tr @ [Log WARNING (cp_id s) SkippingMeterValues])
      \<and> calls_of (trace_of (send_meter_values str env c vs s tr)) = calls_of tr)
   \<and> (vs = [] \<longrightarrow> calls_of (trace_of (send_meter_values str env c vs s tr)) = calls_of tr)
   \<and> (current_transaction_id s \<noteq> None
        \<and> (\<forall>i<length vs. \<exists>r. call_outcome env (length (calls_of tr) + i)
            (MeterValues c (current_transaction_id s)
               [MeterValue (now env (length tr + 3 * i)) [SampledValue (str (vs ! i))]])
          = Returned r) \<longrightarrow>
      returned (send_meter_values str env c vs s tr) = Inr ()
      \<and> (\<exists>es. trace_of (send_meter_values str env c vs s tr) = tr @ es
            \<and> calls_of es =
                map (\<lambda>i. MeterValues c (current_transaction_id s)
                            [MeterValue (now env (length tr + 3 * i)) [SampledValue (str (vs ! i))]])
                  [0..<length vs]))"
proof (intro conjI impI)
  assume "current_transaction_id s = None"
  then show "send_meter_values str env c vs s tr
      = (Inr (), s, tr @ [Log WARNING (cp_id s) SkippingMeterValues])"
    by (simp add: send_meter_values_def)
  then show "calls_of (trace_of (send_meter_values str env c vs s tr)) = calls_of tr"
    by (simp add: trace_of_def calls_of_append)
next
  assume "vs = []"
  then show "calls_of (trace_of (send_meter_values str env c vs s tr)) = calls_of tr"
    by (simp add: send_meter_values_def trace_of_def calls_of_append)
next
  assume a: "current_transaction_id s \<noteq> None
      \<and> (\<forall>i<length vs. \<exists>r. call_outcome env (length (calls_of tr) + i)
            (MeterValues c (current_transaction_id s)
               [MeterValue (now env (length tr + 3 * i)) [SampledValue (str (vs ! i))]])
          = Returned r)"
  then have "current_transaction_id s \<noteq> None"
    by blast
  then have run: "send_meter_values str env c vs s tr = meter_values_loop str env c vs s tr"
    by (auto simp add: send_meter_values_def)
  from a have "\<forall>i<length vs. \<exists>r. call_outcome env (length (calls_of tr) + i)
            (MeterValues c (current_transaction_id s)
               [MeterValue (now env (length tr + 3 * i)) [SampledValue (str (vs ! i))]])
          = Returned r"
    by blast
  from meter_values_loop_all_return [OF this] obtain es where
    es: "meter_values_loop str env c vs s tr = (Inr (), s, tr @ es)"
        "calls_of es =
            map (\<lambda>i. MeterValues c (current_transaction_id s)
                        [MeterValue (now env (length tr + 3 * i)) [SampledValue (str (vs ! i))]])
              [0..<length vs]"
    by blast
  show "returned (send_meter_values str env c vs s tr) = Inr ()"
    by (simp add: run es(1) returned_def)
  show "\<exists>es. trace_of (send_meter_values str env c vs s tr) = tr @ es
            \<and> calls_of es =
                map (\<lambda>i. MeterValues c (current_transaction_id s)
                            [MeterValue (now env (length tr + 3 * i)) [SampledValue (str (vs ! i))]])
                  [0..<length vs]"
    using es(2) by (simp add: run es(1) trace_of_def)
qed

text \<open>The three cases on a session without and with the transaction 7.\<close>

theorem send_meter_values_calls_witness:
  "send_meter_values str_sample (answering MeterValuesResult) 1 [''10.0'', ''20.0''] (init ''CP_1'') []
     = (Inr (), init ''CP_1'', [Log WARNING ''CP_1'' SkippingMeterValues])
   \<and> calls_of (trace_of (send_meter_values str_sample (answering MeterValuesResult) 1 [] (active 7) []))
     = []
   \<and> returned (send_meter_values str_sample (answering MeterValuesResult) 1 [''10.0'', ''20.0'']
        (active 7) []) = Inr ()
   \<and> calls_of (trace_of (send_meter_values str_sample (answering MeterValuesResult) 1
        [''10.0'', ''20.0''] (active 7) []))
     = [MeterValues 1 (Some 7) [MeterValue ''2025-01-01T00:00:00+00:00'' [SampledValue ''10.0'']],
        MeterValues 1 (Some 7) [MeterValue ''2025-01-01T00:00:00+00:00'' [SampledValue ''20.0'']]]"
proof -
  let ?env = "answering MeterValuesResult"
  have none: "current_transaction_id (init ''CP_1'') = None"
    by (simp add: init_def)
  have some: "current_transaction_id (active 7) \<noteq> None
      \<and> (\<forall>i<length [''10.0'', ''20.0''].
            \<exists>r. call_outcome ?env (length (calls_of []) + i)
              (MeterValues 1 (current_transaction_id (active 7))
                 [MeterValue (now ?env (length ([]::event list) + 3 * i))
                    [SampledValue (str_sample ([''10.0'', ''20.0''] ! i))]])
            = Returned r)"
    by (simp add: active_def init_def answering_def)
  note thm1 = send_meter_values_calls [of "init ''CP_1''" str_sample ?env 1 "[''10.0'', ''20.0'']" "[]"]
  note thm2 = send_meter_values_calls [of "active 7" str_sample ?env 1 "[]" "[]"]
  note thm3 = send_meter_values_calls [of "active 7" str_sample ?env 1 "[''10.0'', ''20.0'']" "[]"]
  from thm1 none have 1: "send_meter_values str_sample ?env 1 [''10.0'', ''20.0''] (init ''CP_1'') []
      = (Inr (), init ''CP_1'', [Log WARNING ''CP_1'' SkippingMeterValues])"
    by (simp add: init_def)
  from thm2 have 2: "calls_of (trace_of (send_meter_values str_sample ?env 1 [] (active 7) [])) = []"
    by simp
  from thm3 some obtain es where
    3: "returned (send_meter_values str_sample ?env 1 [''10.0'', ''20.0''] (active 7) []) = Inr ()"
    and es: "trace_of (send_meter_values str_sample ?env 1 [''10.0'', ''20.0''] (active 7) []) = [] @ es"
      "calls_of es =
         map (\<lambda>i. MeterValues 1 (current_transaction_id (active 7))
                     [MeterValue (now ?env (length ([]::event list) + 3 * i))
                        [SampledValue (str_sample ([''10.0'', ''20.0''] ! i))]])
           [0..<length [''10.0'', ''20.0'']]"
    by blast
  have 4: "calls_of (trace_of (send_meter_values str_sample ?env 1 [''10.0'', ''20.0''] (active 7) []))
      = [MeterValues 1 (Some 7) [MeterValue ''2025-01-01T00:00:00+00:00'' [SampledValue ''10.0'']],
         MeterValues 1 (Some 7) [MeterValue ''2025-01-01T00:00:00+00:00'' [SampledValue ''20.0'']]]"
    using es by (simp add: active_def init_def answering_def str_sample_def upt_rec)
  from 1 2 3 4 show ?thesis by simp
qed

text \<open>
  Without the condition that the calls return, C2 fails: when the first of two calls times
  out, one request has been handed over, not two.
\<close>

theorem send_meter_values_count_counterexample:
  "current_transaction_id (active 7) = Some 7
   \<and> calls_of (trace_of (send_meter_values str_sample (timing_out_at 0 MeterValuesResult) 1
        [''10.0'', ''20.0''] (active 7) []))
     = [MeterValues 1 (Some 7) [MeterValue ''2025-01-01T00:00:00+00:00'' [SampledValue ''10.0'']]]"
  by (simp add: send_meter_values_def timing_out_at_def active_def init_def trace_of_def
      str_sample_def)

subsection \<open>StopTransaction\<close>

text \<open>
  C3. With no current transaction, \<^verbatim>\<open>send_stop_transaction\<close> hands no request to
  \<^verbatim>\<open>self.call\<close> and logs the warning that it skips. With the current transaction
  \<open>tid\<close> it hands over exactly one request, a StopTransaction with \<open>tid\<close> and the
  given \<open>meter_stop\<close>; when that call returns, the operation returns normally and the
  current transaction is \<open>None\<close>.
\<close>

theorem send_stop_transaction_spec:
  "(current_transaction_id s = None \<longrightarrow>
      send_stop_transaction env meter_stop s tr
        = (Inr (), s, tr @ [Log WARNING (cp_id s) SkippingStopTransaction])
      \<and> calls_of (trace_of (send_stop_transaction env meter_stop s tr)) = calls_of tr)
   \<and> (\<forall>tid. current_transaction_id s = Some tid \<longrightarrow>
        (\<exists>es. trace_of (send_stop_transaction env meter_stop s tr) = tr @ es
              \<and> calls_of es = [StopTransaction tid meter_stop (now env (length tr))])
        \<and> (\<forall>resp. call_outcome env (length (calls_of tr))
                      (StopTransaction tid meter_stop (now env (length tr)))
                    = Returned resp \<longrightarrow>
              returned (send_stop_transaction env meter_stop s tr) = Inr ()
              \<and> current_transaction_id (state_of (send_stop_transaction env meter_stop s tr))
                  = None))"
proof (intro conjI allI impI)
  assume "current_transaction_id s = None"
  then show "send_stop_transaction env meter_stop s tr
      = (Inr (), s, tr @ [Log WARNING (cp_id s) SkippingStopTransaction])"
    by (simp add: send_stop_transaction_def)
  then show "calls_of (trace_of (send_stop_transaction env meter_stop s tr)) = calls_of tr"
    by (simp add: trace_of_def calls_of_append)
next
  fix tid
  assume tid: "current_transaction_id s = Some tid"
  show "\<exists>es. trace_of (send_stop_transaction env meter_stop s tr) = tr @ es
      \<and> calls_of es = [StopTransaction tid meter_stop (now env (length tr))]"
    using tid
    by (cases "call_outcome env (length (calls_of tr))
          (StopTransaction tid meter_stop (now env (length tr)))")
      (simp_all add: send_stop_transaction_def trace_of_def calls_of_append)
next
  fix tid resp
  assume tid: "current_transaction_id s = Some tid"
    and resp: "call_outcome env (length (calls_of tr))
        (StopTransaction tid meter_stop (now env (length tr))) = Returned resp"
  then show "returned (send_stop_transaction env meter_stop s tr) = Inr ()"
    by (simp add: send_stop_transaction_def returned_def calls_of_append)
  from tid resp
  show "current_transaction_id (state_of (send_stop_transaction env meter_stop s tr)) = None"
    by (simp add: send_stop_transaction_def state_of_def calls_of_append)
qed

text \<open>Both cases, on a fresh session and on a session with the transaction 7.\<close>

theorem send_stop_transaction_spec_witness:
  "send_stop_transaction (answering (StopTransactionResult (IdTagInfo AuthAccepted))) 100
     (init ''CP_1'') []
     = (Inr (), init ''CP_1'', [Log WARNING ''CP_1'' SkippingStopTransaction])
   \<and> calls_of (trace_of (send_stop_transaction
        (answering (StopTransactionResult (IdTagInfo AuthAccepted))) 100 (active 7) []))
     = [StopTransaction 7 100 ''2025-01-01T00:00:00+00:00'']
   \<and> returned (send_stop_transaction
        (answering (StopTransactionResult (IdTagInfo AuthAccepted))) 100 (active 7) []) = Inr ()
   \<and> current_transaction_id (state_of (send_stop_transaction
        (answering (StopTransactionResult (IdTagInfo AuthAccepted))) 100 (active 7) [])) = None"
proof -
  let ?env = "answering (StopTransactionResult (IdTagInfo AuthAccepted))"
  have none: "current_transaction_id (init ''CP_1'') = None"
    by (simp add: init_def)
  have some: "current_transaction_id (active 7) = Some 7"
    by (simp add: active_def)
  have resp: "call_outcome ?env (length (calls_of []))
        (StopTransaction 7 100 (now ?env (length ([]::event list))))
      = Returned (StopTransactionResult (IdTagInfo AuthAccepted))"
    by (simp add: answering_def)
  from send_stop_transaction_spec [of "init ''CP_1''" ?env 100 "[]"] none
  have 1: "send_stop_transaction ?env 100 (init ''CP_1'') []
      = (Inr (), init ''CP_1'', [Log WARNING ''CP_1'' SkippingStopTransaction])"
    by (simp add: init_def)
  from send_stop_transaction_spec [of "active 7" ?env 100 "[]"] some resp
  have 2: "calls_of (trace_of (send_stop_transaction ?env 100 (active 7) []))
        = [StopTransaction 7 100 ''2025-01-01T00:00:00+00:00'']"
    and 3: "returned (send_stop_transaction ?env 100 (active 7) []) = Inr ()"
    and 4: "current_transaction_id (state_of (send_stop_transaction ?env 100 (active 7) [])) = None"
    by (auto simp add: answering_def)
  from 1 2 3 4 show ?thesis by simp
qed

text \<open>
  C4, as the code has it. In a session with a current transaction, when the call of the
  first \<^verbatim>\<open>send_stop_transaction\<close> returns, the current transaction is \<open>None\<close>
  afterwards, and a second \<^verbatim>\<open>send_stop_transaction\<close> right after it (with any
  surroundings and any meter value) hands no request to \<^verbatim>\<open>self.call\<close>: it only logs
  the warning and leaves the session as it is.
\<close>

theorem stop_transaction_twice:
  assumes "current_transaction_id s = Some tid"
    and "call_outcome env (length (calls_of tr))
        (StopTransaction tid meter_stop (now env (length tr))) = Returned resp"
  shows "current_transaction_id (state_of (send_stop_transaction env meter_stop s tr)) = None
    \<and> send_stop_transaction env' meter_stop'
          (state_of (send_stop_transaction env meter_stop s tr))
          (trace_of (send_stop_transaction env meter_stop s tr))
        = (Inr (), state_of (send_stop_transaction env meter_stop s tr),
           trace_of (send_stop_transaction env meter_stop s tr)
             @ [Log WARNING (cp_id s) SkippingStopTransaction])
    \<and> calls_of (trace_of (send_stop_transaction env' meter_stop'
          (state_of (send_stop_transaction env meter_stop s tr))
          (trace_of (send_stop_transaction env meter_stop s tr))))
        = calls_of (trace_of (send_stop_transaction env meter_stop s tr))"
proof -
  let ?r1 = "send_stop_transaction env meter_stop s tr"
  have st: "state_of ?r1 = s\<lparr>current_transaction_id := None\<rparr>"
    using assms by (simp add: send_stop_transaction_def state_of_def calls_of_append)
  then have cleared: "current_transaction_id (state_of ?r1) = None"
    by simp
  have second: "send_stop_transaction env' meter_stop' (state_of ?r1) (trace_of ?r1)
      = (Inr (), state_of ?r1, trace_of ?r1 @ [Log WARNING (cp_id s) SkippingStopTransaction])"
    unfolding st by (simp add: send_stop_transaction_def)
  have "calls_of (trace_of (send_stop_transaction env' meter_stop' (state_of ?r1) (trace_of ?r1)))
      = calls_of (trace_of ?r1)"
    unfolding second by (simp add: trace_of_def calls_of_append)
  with cleared second show ?thesis by blast
qed

text \<open>Stopping the transaction 7 twice: one request in all.\<close>

theorem stop_transaction_twice_witness:
  "current_transaction_id (state_of (send_stop_transaction
      (answering (StopTransactionResult (IdTagInfo AuthAccepted))) 100 (active 7) [])) = None
   \<and> calls_of (trace_of (send_stop_transaction
        (answering (StopTransactionResult (IdTagInfo AuthAccepted))) 100
        (state_of (send_stop_transaction
           (answering (StopTransactionResult (IdTagInfo AuthAccepted))) 100 (active 7) []))
        (trace_of (send_stop_transaction
           (answering (StopTransactionResult (IdTagInfo AuthAccepted))) 100 (active 7) []))))
     = [StopTransaction 7 100 ''2025-01-01T00:00:00+00:00'']"
proof -
  let ?env = "answering (StopTransactionResult (IdTagInfo AuthAccepted))"
  have some: "current_transaction_id (active 7) = Some 7"
    by (simp add: active_def)
  have resp: "call_outcome ?env (length (calls_of []))
        (StopTransaction 7 100 (now ?env (length ([]::event list))))
      = Returned (StopTransactionResult (IdTagInfo AuthAccepted))"
    by (simp add: answering_def)
  have first: "calls_of (trace_of (send_stop_transaction ?env 100 (active 7) []))
      = [StopTransaction 7 100 ''2025-01-01T00:00:00+00:00'']"
    by (simp add: send_stop_transaction_def active_def init_def answering_def trace_of_def)
  note twice = stop_transaction_twice [OF some resp, of ?env 100]
  from twice have cleared: "current_transaction_id (state_of (send_stop_transaction ?env 100 (active 7) []))
      = None"
    by (rule conjunct1)
  from twice have same: "calls_of (trace_of (send_stop_transaction ?env 100
        (state_of (send_stop_transaction ?env 100 (active 7) []))
        (trace_of (send_stop_transaction ?env 100 (active 7) []))))
      = calls_of (trace_of (send_stop_transaction ?env 100 (active 7) []))"
    by (rule conjunct2 [THEN conjunct2])
  from cleared trans [OF same first] show ?thesis
    by (rule conjI)
qed

text \<open>
  Without the condition that the first call returns, C4 fails: when the first call times
  out the assignment that clears the transaction is not reached, the transaction 7 stays,
  and the second invocation hands over a second StopTransaction request.
\<close>

theorem stop_transaction_twice_counterexample:
  "current_transaction_id (active 7) = Some 7
   \<and> current_transaction_id (state_of (send_stop_transaction
        (timing_out_at 0 (StopTransactionResult (IdTagInfo AuthAccepted))) 100 (active 7) []))
     = Some 7
   \<and> calls_of (trace_of (send_stop_transaction
        (timing_out_at 0 (StopTransactionResult (IdTagInfo AuthAccepted))) 100
        (state_of (send_stop_transaction
           (timing_out_at 0 (StopTransactionResult (IdTagInfo AuthAccepted))) 100 (active 7) []))
        (trace_of (send_stop_transaction
           (timing_out_at 0 (StopTransactionResult (IdTagInfo AuthAccepted))) 100 (active 7) []))))
     = [StopTransaction 7 100 ''2025-01-01T00:00:00+00:00'',
        StopTransaction 7 100 ''2025-01-01T00:00:00+00:00'']"
  by (simp add: send_stop_transaction_def timing_out_at_def active_def init_def
      state_of_def trace_of_def)

subsection \<open>Failures of the heartbeat call\<close>

text \<open>
  C5, as the code has it. The heartbeat loop has no handler around \<^verbatim>\<open>self.call\<close>. As
  long as each Heartbeat call returns, the loop goes on: after \<open>n\<close> iterations it is
  still running and has issued \<open>n\<close> Heartbeat requests. When the call of iteration
  \<open>k\<close> raises, the task ends with that exception: however many iterations are
  observed, the requests issued are those of the iterations \<open>0\<close> to \<open>k\<close>, and the
  trace ends with the sleep, the log record and the request of iteration \<open>k\<close>, after
  the four events of each iteration before it. Nothing is logged about the failure and no
  request follows.
\<close>

theorem heartbeat_loop_recurrence:
  "((\<forall>i<n. \<exists>r. call_outcome env (length (calls_of tr) + i) Heartbeat = Returned r) \<longrightarrow>
      (\<exists>es. heartbeat_loop n env s tr = (None, tr @ es)
            \<and> calls_of es = replicate n Heartbeat))
   \<and> (\<forall>k e. k < n
          \<and> (\<forall>i<k. \<exists>r. call_outcome env (length (calls_of tr) + i) Heartbeat = Returned r)
          \<and> call_outcome env (length (calls_of tr) + k) Heartbeat = Raised e \<longrightarrow>
        (\<exists>es es'. heartbeat_loop n env s tr = (Some e, tr @ es)
              \<and> calls_of es = replicate (Suc k) Heartbeat
              \<and> es = es' @ [Slept (heartbeat_interval s), Log INFO (cp_id s) SendingHeartbeat,
                             Called Heartbeat]
              \<and> length es = 4 * k + 3
              \<and> last (snd (heartbeat_loop n env s tr)) = Called Heartbeat))"
proof (intro conjI allI impI)
  assume "\<forall>i<n. \<exists>r. call_outcome env (length (calls_of tr) + i) Heartbeat = Returned r"
  then show "\<exists>es. heartbeat_loop n env s tr = (None, tr @ es)
      \<and> calls_of es = replicate n Heartbeat"
    by (rule heartbeat_loop_all_return)
next
  fix k e
  assume a: "k < n
      \<and> (\<forall>i<k. \<exists>r. call_outcome env (length (calls_of tr) + i) Heartbeat = Returned r)
      \<and> call_outcome env (length (calls_of tr) + k) Heartbeat = Raised e"
  then have "k < n"
    and "\<forall>i<k. \<exists>r. call_outcome env (length (calls_of tr) + i) Heartbeat = Returned r"
    and "call_outcome env (length (calls_of tr) + k) Heartbeat = Raised e"
    by blast+
  from heartbeat_loop_raise [OF this, of s] obtain es es' where
    es: "heartbeat_loop n env s tr = (Some e, tr @ es)"
        "calls_of es = replicate (Suc k) Heartbeat"
        "es = es' @ [Slept (heartbeat_interval s), Log INFO (cp_id s) SendingHeartbeat,
                     Called Heartbeat]"
        "length es = 4 * k + 3"
    by blast
  have "last (snd (heartbeat_loop n env s tr)) = Called Heartbeat"
    unfolding es(1) by (simp add: es(3))
  with es show "\<exists>es es'. heartbeat_loop n env s tr = (Some e, tr @ es)
      \<and> calls_of es = replicate (Suc k) Heartbeat
      \<and> es = es' @ [Slept (heartbeat_interval s), Log INFO (cp_id s) SendingHeartbeat,
                     Called Heartbeat]
      \<and> length es = 4 * k + 3
      \<and> last (snd (heartbeat_loop n env s tr)) = Called Heartbeat"
    by blast
qed

text \<open>Three observed iterations: with every call answered, and with the second call timing out.\<close>

theorem heartbeat_loop_recurrence_witness:
  "fst (heartbeat_loop 3 (answering (HeartbeatResult ''2025-01-01T00:00:10+00:00''))
          (init ''CP_1'') []) = None
   \<and> calls_of (snd (heartbeat_loop 3 (answering (HeartbeatResult ''2025-01-01T00:00:10+00:00''))
          (init ''CP_1'') [])) = [Heartbeat, Heartbeat, Heartbeat]
   \<and> fst (heartbeat_loop 3 (timing_out_at 1 (HeartbeatResult ''2025-01-01T00:00:10+00:00''))
          (init ''CP_1'') []) = Some TimeoutError
   \<and> calls_of (snd (heartbeat_loop 3 (timing_out_at 1 (HeartbeatResult ''2025-01-01T00:00:10+00:00''))
          (init ''CP_1'') [])) = [Heartbeat, Heartbeat]
   \<and> last (snd (heartbeat_loop 3 (timing_out_at 1 (HeartbeatResult ''2025-01-01T00:00:10+00:00''))
          (init ''CP_1'') [])) = Called Heartbeat"
proof -
  let ?ok = "answering (HeartbeatResult ''2025-01-01T00:00:10+00:00'')"
  let ?bad = "timing_out_at 1 (HeartbeatResult ''2025-01-01T00:00:10+00:00'')"
  have ok: "\<forall>i<3. \<exists>r. call_outcome ?ok (length (calls_of []) + i) Heartbeat = Returned r"
    by (simp add: answering_def)
  have bad: "(1::nat) < 3
      \<and> (\<forall>i<1. \<exists>r. call_outcome ?bad (length (calls_of []) + i) Heartbeat = Returned r)
      \<and> call_outcome ?bad (length (calls_of []) + 1) Heartbeat = Raised TimeoutError"
    by (simp add: timing_out_at_def)
  from heartbeat_loop_recurrence [of 3 ?ok "[]" "init ''CP_1''"] ok
  obtain es where "heartbeat_loop 3 ?ok (init ''CP_1'') [] = (None, [] @ es)"
    "calls_of es = replicate 3 Heartbeat"
    by blast
  then have 1: "fst (heartbeat_loop 3 ?ok (init ''CP_1'') []) = None"
    and 2: "calls_of (snd (heartbeat_loop 3 ?ok (init ''CP_1'') [])) = [Heartbeat, Heartbeat, Heartbeat]"
    by (simp_all add: numeral_3_eq_3)
  from heartbeat_loop_recurrence [of 3 ?bad "[]" "init ''CP_1''"] bad
  obtain es' where "heartbeat_loop 3 ?bad (init ''CP_1'') [] = (Some TimeoutError, [] @ es')"
    "calls_of es' = replicate (Suc 1) Heartbeat"
    "last (snd (heartbeat_loop 3 ?bad (init ''CP_1'') [])) = Called Heartbeat"
    by blast
  then have 3: "fst (heartbeat_loop 3 ?bad (init ''CP_1'') []) = Some TimeoutError"
    and 4: "calls_of (snd (heartbeat_loop 3 ?bad (init ''CP_1'') [])) = [Heartbeat, Heartbeat]"
    and 5: "last (snd (heartbeat_loop 3 ?bad (init ''CP_1'') [])) = Called Heartbeat"
    by simp_all
  from 1 2 3 4 5 show ?thesis by blast
qed

text \<open>
  C5 as stated fails: when the first Heartbeat call times out, the loop issues no further
  Heartbeat request although five iterations are observed and every later call would be
  answered, and it logs nothing after the request.
\<close>

theorem heartbeat_loop_failure_counterexample:
  "heartbeat_loop 5 (timing_out_at 0 (HeartbeatResult ''2025-01-01T00:00:10+00:00''))
     (init ''CP_1'') []
   = (Some TimeoutError,
      [Slept 10, Log INFO ''CP_1'' SendingHeartbeat, Called Heartbeat])"
  by (simp add: eval_nat_numeral timing_out_at_def init_def)

subsection \<open>Failures of a MeterValues call\<close>

text \<open>
  C6, as the code has it. With a current transaction, when the calls for the samples before
  position \<open>k\<close> return and the call for the sample at position \<open>k\<close> raises,
  \<^verbatim>\<open>send_meter_values\<close> raises that exception and the requests handed over are those
  for the samples at positions \<open>0\<close> to \<open>k\<close>: no request is made for a later sample.
\<close>

theorem send_meter_values_failure_aborts:
  assumes "current_transaction_id s \<noteq> None"
    and "k < length vs"
    and "\<forall>i<k. \<exists>r. call_outcome env (length (calls_of tr) + i)
            (MeterValues c (current_transaction_id s)
               [MeterValue (now env (length tr + 3 * i)) [SampledValue (str (vs ! i))]])
          = Returned r"
    and "call_outcome env (length (calls_of tr) + k)
            (MeterValues c (current_transaction_id s)
               [MeterValue (now env (length tr + 3 * k)) [SampledValue (str (vs ! k))]])
          = Raised e"
  shows "returned (send_meter_values str env c vs s tr) = Inl e
    \<and> (\<exists>es. trace_of (send_meter_values str env c vs s tr) = tr @ es
          \<and> calls_of es =
              map (\<lambda>i. MeterValues c (current_transaction_id s)
                          [MeterValue (now env (length tr + 3 * i)) [SampledValue (str (vs ! i))]])
                [0..<Suc k])"
proof -
  from assms(1) have run: "send_meter_values str env c vs s tr = meter_values_loop str env c vs s tr"
    by (auto simp add: send_meter_values_def)
  from meter_values_loop_raise [OF assms(2) assms(3) assms(4)] obtain es where
    es: "meter_values_loop str env c vs s tr = (Inl e, s, tr @ es)"
        "calls_of es =
            map (\<lambda>i. MeterValues c (current_transaction_id s)
                        [MeterValue (now env (length tr + 3 * i)) [SampledValue (str (vs ! i))]])
              [0..<Suc k]"
    by blast
  have "returned (send_meter_values str env c vs s tr) = Inl e"
    by (simp add: run es(1) returned_def)
  moreover have "trace_of (send_meter_values str env c vs s tr) = tr @ es"
    by (simp add: run es(1) trace_of_def)
  ultimately show ?thesis using es(2) by blast
qed

text \<open>Three samples, the call for the second one timing out.\<close>

theorem send_meter_values_failure_aborts_witness:
  "returned (send_meter_values str_sample (timing_out_at 1 MeterValuesResult) 1
      [''10.0'', ''20.0'', ''30.0''] (active 7) []) = Inl TimeoutError
   \<and> calls_of (trace_of (send_meter_values str_sample (timing_out_at 1 MeterValuesResult) 1
        [''10.0'', ''20.0'', ''30.0''] (active 7) []))
     = [MeterValues 1 (Some 7) [MeterValue ''2025-01-01T00:00:00+00:00'' [SampledValue ''10.0'']],
        MeterValues 1 (Some 7) [MeterValue ''2025-01-01T00:00:00+00:00'' [SampledValue ''20.0'']]]"
proof -
  let ?env = "timing_out_at 1 MeterValuesResult"
  let ?vs = "[''10.0'', ''20.0'', ''30.0'']"
  have a: "current_transaction_id (active 7) \<noteq> None"
    by (simp add: active_def)
  have b: "1 < length ?vs"
    by simp
  have c: "\<forall>i<1. \<exists>r. call_outcome ?env (length (calls_of []) + i)
        (MeterValues 1 (current_transaction_id (active 7))
           [MeterValue (now ?env (length ([]::event list) + 3 * i))
              [SampledValue (str_sample (?vs ! i))]])
      = Returned r"
    by (simp add: timing_out_at_def)
  have d: "call_outcome ?env (length (calls_of []) + 1)
        (MeterValues 1 (current_transaction_id (active 7))
           [MeterValue (now ?env (length ([]::event list) + 3 * 1))
              [SampledValue (str_sample (?vs ! 1))]])
      = Raised TimeoutError"
    by (simp add: timing_out_at_def)
  from send_meter_values_failure_aborts [OF a b c d] obtain es where
    r: "returned (send_meter_values str_sample ?env 1 ?vs (active 7) []) = Inl TimeoutError"
    and es: "trace_of (send_meter_values str_sample ?env 1 ?vs (active 7) []) = [] @ es"
      "calls_of es =
         map (\<lambda>i. MeterValues 1 (current_transaction_id (active 7))
                     [MeterValue (now ?env (length ([]::event list) + 3 * i))
                        [SampledValue (str_sample (?vs ! i))]])
           [0..<Suc 1]"
    by blast
  have "calls_of (trace_of (send_meter_values str_sample ?env 1 ?vs (active 7) []))
      = [MeterValues 1 (Some 7) [MeterValue ''2025-01-01T00:00:00+00:00'' [SampledValue ''10.0'']],
         MeterValues 1 (Some 7) [MeterValue ''2025-01-01T00:00:00+00:00'' [SampledValue ''20.0'']]]"
    using es by (simp add: active_def init_def timing_out_at_def str_sample_def upt_rec)
  with r show ?thesis by (rule conjI)
qed

text \<open>
  C6 as stated fails: when the call for the first of three samples times out, the operation
  ends with the exception after that one request; the second and third samples are never
  sent.
\<close>

theorem send_meter_values_failure_counterexample:
  "current_transaction_id (active 7) = Some 7
   \<and> send_meter_values str_sample (timing_out_at 0 MeterValuesResult) 1
        [''10.0'', ''20.0'', ''30.0''] (active 7) []
     = (Inl TimeoutError, active 7,
        [Log INFO ''CP_1'' (SendingMeterValues ''10.0''),
         Called (MeterValues 1 (Some 7)
           [MeterValue ''2025-01-01T00:00:00+00:00'' [SampledValue ''10.0'']])])"
  by (simp add: send_meter_values_def timing_out_at_def active_def init_def str_sample_def)

subsection \<open>Starting the heartbeat task\<close>

text \<open>
  C7, as the code has it. \<^verbatim>\<open>send_boot_notification\<close> starts the heartbeat task if and
  only if \<^verbatim>\<open>self.call\<close> returns a BootNotification result with status Accepted; in any
  other case it starts no task. On Accepted the interval of the response is stored as it
  is, with no lower bound applied, and the heartbeat task run from the resulting session
  sleeps for exactly that interval before each of its Heartbeat requests.
\<close>

theorem send_boot_notification_heartbeat:
  "(\<exists>es. trace_of (send_boot_notification env s tr) = tr @ es
        \<and> tasks_of es =
            (if \<exists>t i. call_outcome env (length (calls_of tr))
                          (BootNotification ''MyTestModel'' ''MyStartup'')
                        = Returned (BootNotificationResult t i RegAccepted)
             then [HeartbeatLoop] else []))
   \<and> (\<forall>t i. call_outcome env (length (calls_of tr))
                  (BootNotification ''MyTestModel'' ''MyStartup'')
                = Returned (BootNotificationResult t i RegAccepted) \<longrightarrow>
        heartbeat_interval (state_of (send_boot_notification env s tr)) = i
        \<and> (\<forall>n env' tr'. \<exists>es.
              snd (heartbeat_loop n env' (state_of (send_boot_notification env s tr)) tr') = tr' @ es
              \<and> sleeps_of es = replicate (length (calls_of es)) i))"
proof (intro conjI allI impI)
  show "\<exists>es. trace_of (send_boot_notification env s tr) = tr @ es
        \<and> tasks_of es =
            (if \<exists>t i. call_outcome env (length (calls_of tr))
                          (BootNotification ''MyTestModel'' ''MyStartup'')
                        = Returned (BootNotificationResult t i RegAccepted)
             then [HeartbeatLoop] else [])"
  proof (cases "call_outcome env (length (calls_of tr))
      (BootNotification ''MyTestModel'' ''MyStartup'')")
    case (Raised e)
    then show ?thesis
      by (simp add: send_boot_notification_def trace_of_def calls_of_append)
  next
    case (Returned response)
    then show ?thesis
      by (cases response)
        (simp_all add: send_boot_notification_def trace_of_def calls_of_append)
  qed
next
  fix t i
  assume acc: "call_outcome env (length (calls_of tr))
        (BootNotification ''MyTestModel'' ''MyStartup'')
      = Returned (BootNotificationResult t i RegAccepted)"
  then show iv: "heartbeat_interval (state_of (send_boot_notification env s tr)) = i"
    by (simp add: send_boot_notification_def state_of_def calls_of_append)
  fix n env' tr'
  from heartbeat_loop_sleeps [of n env' "state_of (send_boot_notification env s tr)" tr']
  show "\<exists>es. snd (heartbeat_loop n env' (state_of (send_boot_notification env s tr)) tr') = tr' @ es
      \<and> sleeps_of es = replicate (length (calls_of es)) i"
    unfolding iv .
qed

text \<open>An accepted boot with interval 300, two heartbeats after it, and a rejected boot.\<close>

theorem send_boot_notification_heartbeat_witness:
  "tasks_of (trace_of (send_boot_notification
      (answering (BootNotificationResult ''2025-01-01T00:00:00+00:00'' 300 RegAccepted))
      (init ''CP_1'') [])) = [HeartbeatLoop]
   \<and> heartbeat_interval (state_of (send_boot_notification
        (answering (BootNotificationResult ''2025-01-01T00:00:00+00:00'' 300 RegAccepted))
        (init ''CP_1'') [])) = 300
   \<and> sleeps_of (snd (heartbeat_loop 2 (answering (HeartbeatResult ''2025-01-01T00:05:00+00:00''))
        (state_of (send_boot_notification
          (answering (BootNotificationResult ''2025-01-01T00:00:00+00:00'' 300 RegAccepted))
          (init ''CP_1'') [])) [])) = [300, 300]
   \<and> tasks_of (trace_of (send_boot_notification
        (answering (BootNotificationResult ''2025-01-01T00:00:00+00:00'' 300 RegRejected))
        (init ''CP_1'') [])) = []"
proof -
  let ?acc = "answering (BootNotificationResult ''2025-01-01T00:00:00+00:00'' 300 RegAccepted)"
  let ?rej = "answering (BootNotificationResult ''2025-01-01T00:00:00+00:00'' 300 RegRejected)"
  let ?hb = "answering (HeartbeatResult ''2025-01-01T00:05:00+00:00'')"
  let ?s = "state_of (send_boot_notification ?acc (init ''CP_1'') [])"
  have acc: "call_outcome ?acc (length (calls_of []))
        (BootNotification ''MyTestModel'' ''MyStartup'')
      = Returned (BootNotificationResult ''2025-01-01T00:00:00+00:00'' 300 RegAccepted)"
    by (simp add: answering_def)
  note a = send_boot_notification_heartbeat [of ?acc "init ''CP_1''" "[]"]
  note r = send_boot_notification_heartbeat [of ?rej "init ''CP_1''" "[]"]
  from a acc have 1: "tasks_of (trace_of (send_boot_notification ?acc (init ''CP_1'') []))
      = [HeartbeatLoop]"
    by auto
  from a acc have 2: "heartbeat_interval ?s = 300"
    by blast
  from a acc obtain es where es: "snd (heartbeat_loop 2 ?hb ?s []) = [] @ es"
    "sleeps_of es = replicate (length (calls_of es)) 300"
    by blast
  have "calls_of (snd (heartbeat_loop 2 ?hb ?s [])) = [Heartbeat, Heartbeat]"
    by (simp add: eval_nat_numeral answering_def)
  with es have 3: "sleeps_of (snd (heartbeat_loop 2 ?hb ?s [])) = [300, 300]"
    by (simp add: eval_nat_numeral)
  from r have 4: "tasks_of (trace_of (send_boot_notification ?rej (init ''CP_1'') [])) = []"
    by (auto simp add: answering_def)
  from 1 2 3 4 show ?thesis by blast
qed

text \<open>
  C7 as stated fails in its lower bound: an accepted response with interval 0 starts the
  task with the stored interval 0, and the task sleeps 0 seconds before each Heartbeat.
\<close>

theorem heartbeat_interval_counterexample:
  "tasks_of (trace_of (send_boot_notification
      (answering (BootNotificationResult ''2025-01-01T00:00:00+00:00'' 0 RegAccepted))
      (init ''CP_1'') [])) = [HeartbeatLoop]
   \<and> heartbeat_interval (state_of (send_boot_notification
        (answering (BootNotificationResult ''2025-01-01T00:00:00+00:00'' 0 RegAccepted))
        (init ''CP_1'') [])) = 0
   \<and> sleeps_of (snd (heartbeat_loop 2 (answering (HeartbeatResult ''2025-01-01T00:00:00+00:00''))
        (state_of (send_boot_notification
          (answering (BootNotificationResult ''2025-01-01T00:00:00+00:00'' 0 RegAccepted))
          (init ''CP_1'') [])) [])) = [0, 0]"
  by (simp add: send_boot_notification_def answering_def init_def state_of_def trace_of_def
      eval_nat_numeral)

subsection \<open>Storing the transaction id\<close>

text \<open>
  C8. Whenever \<^verbatim>\<open>self.call\<close> returns a StartTransaction result,
  \<^verbatim>\<open>send_start_transaction\<close> returns it and stores its transaction id as the current
  transaction, whatever the session held before and whatever the status in the result's
  \<^verbatim>\<open>id_tag_info\<close> is.
\<close>

theorem send_start_transaction_stores_id:
  assumes "call_outcome env (length (calls_of tr))
        (StartTransaction connector_id id_tag 0 (now env (length tr)))
      = Returned (StartTransactionResult tid info)"
  shows "returned (send_start_transaction env connector_id id_tag s tr)
      = Inr (StartTransactionResult tid info)
    \<and> current_transaction_id (state_of (send_start_transaction env connector_id id_tag s tr))
      = Some tid"
  using assms
  by (simp add: send_start_transaction_def returned_def state_of_def calls_of_append)

text \<open>A session with the transaction 5 receives the id 9 with the status Blocked.\<close>

theorem send_start_transaction_stores_id_witness:
  "current_transaction_id (active 5) = Some 5
   \<and> returned (send_start_transaction
        (answering (StartTransactionResult 9 (IdTagInfo AuthBlocked))) 1 ''TAG1'' (active 5) [])
     = Inr (StartTransactionResult 9 (IdTagInfo AuthBlocked))
   \<and> current_transaction_id (state_of (send_start_transaction
        (answering (StartTransactionResult 9 (IdTagInfo AuthBlocked))) 1 ''TAG1'' (active 5) []))
     = Some 9"
proof -
  let ?env = "answering (StartTransactionResult 9 (IdTagInfo AuthBlocked))"
  have resp: "call_outcome ?env (length (calls_of []))
        (StartTransaction 1 ''TAG1'' 0 (now ?env (length ([]::event list))))
      = Returned (StartTransactionResult 9 (IdTagInfo AuthBlocked))"
    by (simp add: answering_def)
  have "current_transaction_id (active 5) = Some 5"
    by (simp add: active_def)
  with send_start_transaction_stores_id [OF resp, of "active 5"]
  show ?thesis by (rule conjI [rotated])
qed

subsection \<open>MeterValues and the session\<close>

text \<open>
  C9. \<^verbatim>\<open>send_meter_values\<close> leaves the session as it found it, whether it skips,
  returns or raises: in particular the current transaction id and the heartbeat interval
  are unchanged, and every request it hands to \<^verbatim>\<open>self.call\<close> is a MeterValues request
  for the given connector with the transaction id the session had at the start.
\<close>

theorem send_meter_values_frame:
  "state_of (send_meter_values str env c vs s tr) = s
   \<and> current_transaction_id (state_of (send_meter_values str env c vs s tr))
       = current_transaction_id s
   \<and> heartbeat_interval (state_of (send_meter_values str env c vs s tr)) = heartbeat_interval s
   \<and> (\<exists>es. trace_of (send_meter_values str env c vs s tr) = tr @ es
         \<and> (\<forall>req \<in> set (calls_of es). \<exists>mvs. req = MeterValues c (current_transaction_id s) mvs))"
proof -
  have "\<exists>r es. send_meter_values str env c vs s tr = (r, s, tr @ es)
      \<and> (\<forall>req \<in> set (calls_of es). \<exists>mvs. req = MeterValues c (current_transaction_id s) mvs)"
  proof (cases "current_transaction_id s = None")
    case True
    then have "send_meter_values str env c vs s tr
        = (Inr (), s, tr @ [Log WARNING (cp_id s) SkippingMeterValues])"
      by (simp add: send_meter_values_def)
    then show ?thesis by simp
  next
    case False
    then have "send_meter_values str env c vs s tr = meter_values_loop str env c vs s tr"
      by (auto simp add: send_meter_values_def)
    with meter_values_loop_frame [of str env c vs s tr] show ?thesis
      by simp
  qed
  then obtain r es where
    run: "send_meter_values str env c vs s tr = (r, s, tr @ es)"
    and same: "\<forall>req \<in> set (calls_of es). \<exists>mvs. req = MeterValues c (current_transaction_id s) mvs"
    by blast
  have "state_of (send_meter_values str env c vs s tr) = s"
    by (simp add: run state_of_def)
  moreover have "trace_of (send_meter_values str env c vs s tr) = tr @ es"
    by (simp add: run trace_of_def)
  ultimately show ?thesis using same by auto
qed

text \<open>Three samples in a session with the transaction 7 and the interval 300.\<close>

theorem send_meter_values_frame_witness:
  "state_of (send_meter_values str_sample (answering MeterValuesResult) 2 [''1.5'', ''2.5'', ''4.0'']
      ((active 7)\<lparr>heartbeat_interval := 300\<rparr>) [])
     = (active 7)\<lparr>heartbeat_interval := 300\<rparr>
   \<and> list_all (\<lambda>req. case req of MeterValues c t mvs \<Rightarrow> c = 2 \<and> t = Some 7 | _ \<Rightarrow> False)
        (calls_of (trace_of (send_meter_values str_sample (answering MeterValuesResult) 2
           [''1.5'', ''2.5'', ''4.0''] ((active 7)\<lparr>heartbeat_interval := 300\<rparr>) [])))
   \<and> length (calls_of (trace_of (send_meter_values str_sample (answering MeterValuesResult) 2
           [''1.5'', ''2.5'', ''4.0''] ((active 7)\<lparr>heartbeat_interval := 300\<rparr>) []))) = 3"
proof -
  let ?s = "(active 7)\<lparr>heartbeat_interval := 300\<rparr>"
  let ?r = "send_meter_values str_sample (answering MeterValuesResult) 2 [''1.5'', ''2.5'', ''4.0''] ?s []"
  note frame = send_meter_values_frame [of str_sample "answering MeterValuesResult" 2
      "[''1.5'', ''2.5'', ''4.0'']" ?s "[]"]
  from frame have 1: "state_of ?r = ?s"
    by (rule conjunct1)
  from frame obtain es where es: "trace_of ?r = [] @ es"
    "\<forall>req \<in> set (calls_of es). \<exists>mvs. req = MeterValues 2 (current_transaction_id ?s) mvs"
    by blast
  have tid: "current_transaction_id ?s = Some 7"
    by (simp add: active_def)
  from es have 2: "list_all (\<lambda>req. case req of MeterValues c t mvs \<Rightarrow> c = 2 \<and> t = Some 7 | _ \<Rightarrow> False)
      (calls_of (trace_of ?r))"
    unfolding tid by (auto simp add: list_all_iff)
  have 3: "length (calls_of (trace_of ?r)) = 3"
    by (simp add: send_meter_values_def active_def init_def answering_def trace_of_def)
  from 1 2 3 show ?thesis by blast
qed

subsection \<open>The status of a StatusNotification\<close>

text \<open>
  C10, as the code has it. \<^verbatim>\<open>send_status_notification\<close> hands exactly one
  StatusNotification request to \<^verbatim>\<open>self.call\<close>. When the given string is a member name
  of the enum, the request carries that member; otherwise it carries the string itself,
  unchanged. The operation makes no check of its own on the string and leaves the session
  as it is; what it returns or raises is decided by \<^verbatim>\<open>self.call\<close> on that request: it
  raises the exception that the call raises, and returns normally when the call returns.
\<close>

theorem send_status_notification_status:
  "(\<forall>m. members status = Some m \<longrightarrow>
      (\<exists>es. trace_of (send_status_notification members env c status s tr) = tr @ es
            \<and> calls_of es
                = [StatusNotification c NoError (EnumMember m) (now env (length tr))]))
   \<and> (members status = None \<longrightarrow>
      (\<exists>es. trace_of (send_status_notification members env c status s tr) = tr @ es
            \<and> calls_of es
                = [StatusNotification c NoError (RawString status) (now env (length tr))]))
   \<and> returned (send_status_notification members env c status s tr)
       = (case call_outcome env (length (calls_of tr))
                 (StatusNotification c NoError
                    (case members status of Some m \<Rightarrow> EnumMember m | None \<Rightarrow> RawString status)
                    (now env (length tr))) of
            Raised e \<Rightarrow> Inl e
          | Returned resp \<Rightarrow> Inr ())
   \<and> state_of (send_status_notification members env c status s tr) = s"
proof -
  let ?req = "StatusNotification c NoError
      (case members status of Some m \<Rightarrow> EnumMember m | None \<Rightarrow> RawString status)
      (now env (length tr))"
  show ?thesis
    by (cases "call_outcome env (length (calls_of tr)) ?req"; cases "members status")
      (simp_all add: send_status_notification_def trace_of_def returned_def state_of_def
        calls_of_append)
qed

text \<open>
  A member name, and a string that is no member name but one of the values that the call
  layer accepts.
\<close>

theorem send_status_notification_status_witness:
  "calls_of (trace_of (send_status_notification two_members checking_status 1 ''available''
      (init ''CP_1'') []))
     = [StatusNotification 1 NoError (EnumMember Available) ''2025-01-01T00:00:00+00:00'']
   \<and> calls_of (trace_of (send_status_notification two_members checking_status 1 ''Available''
        (init ''CP_1'') []))
     = [StatusNotification 1 NoError (RawString ''Available'') ''2025-01-01T00:00:00+00:00'']
   \<and> returned (send_status_notification two_members checking_status 1 ''Available''
        (init ''CP_1'') []) = Inr ()"
proof -
  have known: "two_members ''available'' = Some Available"
    by (simp add: two_members_def)
  have unknown: "two_members ''Available'' = None"
    by (simp add: two_members_def)
  have ts: "now checking_status (length ([]::event list)) = ''2025-01-01T00:00:00+00:00''"
    by (simp add: checking_status_def)
  have accepted: "call_outcome checking_status 0
      (StatusNotification 1 NoError (RawString ''Available'') ''2025-01-01T00:00:00+00:00'')
      = Returned StatusNotificationResult"
    by (simp add: checking_status_def status_values_def)
  note a = send_status_notification_status
    [of two_members "''available''" checking_status 1 "init ''CP_1''" "[]"]
  note b = send_status_notification_status
    [of two_members "''Available''" checking_status 1 "init ''CP_1''" "[]"]
  from a known have 1: "calls_of (trace_of (send_status_notification two_members checking_status 1
        ''available'' (init ''CP_1'') []))
      = [StatusNotification 1 NoError (EnumMember Available) ''2025-01-01T00:00:00+00:00'']"
    unfolding ts by auto
  from b unknown have 2: "calls_of (trace_of (send_status_notification two_members checking_status 1
        ''Available'' (init ''CP_1'') []))
      = [StatusNotification 1 NoError (RawString ''Available'') ''2025-01-01T00:00:00+00:00'']"
    unfolding ts by auto
  from b have "returned (send_status_notification two_members checking_status 1 ''Available''
        (init ''CP_1'') [])
      = (case call_outcome checking_status (length (calls_of []))
               (StatusNotification 1 NoError
                  (case two_members ''Available'' of Some m \<Rightarrow> EnumMember m
                   | None \<Rightarrow> RawString ''Available'')
                  (now checking_status (length ([]::event list)))) of
           Raised e \<Rightarrow> Inl e
         | Returned resp \<Rightarrow> Inr ())"
    by blast
  then have 3: "returned (send_status_notification two_members checking_status 1 ''Available''
        (init ''CP_1'') []) = Inr ()"
    unfolding unknown ts using accepted by simp
  from 1 2 3 show ?thesis by blast
qed

text \<open>
  C10 as stated fails in its last part: the string \<^verbatim>\<open>Out of order\<close> is no member name,
  it is handed over unchanged, the call layer refuses it with
  \<^verbatim>\<open>FormatViolationError\<close>, and the operation raises that exception.
\<close>

theorem send_status_notification_counterexample:
  "two_members ''Out of order'' = None
   \<and> send_status_notification two_members checking_status 1 ''Out of order'' (init ''CP_1'') []
     = (Inl FormatViolationError, init ''CP_1'',
        [Log INFO ''CP_1'' (SendingStatusNotification ''Out of order'' 1),
         Called (StatusNotification 1 NoError (RawString ''Out of order'')
           ''2025-01-01T00:00:00+00:00'')])"
  by (simp add: send_status_notification_def two_members_def checking_status_def
      status_values_def init_def)

end
